theory Spec2Isabelle
  imports Main "HOL-Library.Word"
begin

section \<open>The replica-dispatch transport of kv/transport.go\<close>

text \<open>
  A shallow embedding of \<^verbatim>\<open>kv/transport.go\<close>. Go slices are lists, structs are
  records, a method with a pointer receiver takes the receiver and returns it updated, a
  Go \<^verbatim>\<open>error\<close> result is an \<open>error option\<close> (\<open>None\<close> is \<^verbatim>\<open>nil\<close>) and a panic is the
  left summand of a sum.

  The slices \<^verbatim>\<open>orderedClients\<close> and \<^verbatim>\<open>allOrderedClients\<close> start on one backing
  array, but no method writes through either of them: \<^verbatim>\<open>SendNext\<close> only re-slices and
  \<^verbatim>\<open>TryNext\<close> only appends to slices it has just allocated. Lists therefore lose
  nothing.
\<close>

subsection \<open>Data\<close>

text \<open>\<^verbatim>\<open>roachpb.ReplicaDescriptor\<close> is declared outside this file. The transport compares
  descriptors with \<^verbatim>\<open>==\<close> and reads \<^verbatim>\<open>ReplicaID\<close>, an \<^verbatim>\<open>int32\<close>.\<close>

record ReplicaDescriptor =
  NodeID :: "32 word"
  StoreID :: "32 word"
  ReplicaID :: "32 word"

text \<open>Go's \<^verbatim>\<open>error\<close> values that occur here: \<^verbatim>\<open>errors.New\<close>, \<^verbatim>\<open>errors.Errorf\<close> with the
  replica it formats, the sentinel \<^verbatim>\<open>circuit.ErrBreakerOpen\<close>, and \<^verbatim>\<open>errors.Wrap\<close>, whose
  chain \<^verbatim>\<open>errors.Cause\<close> follows to its root.\<close>

datatype error =
    errors_New string
  | errors_Errorf string ReplicaDescriptor
  | ErrBreakerOpen
  | errors_Wrap error string

fun Cause :: "error \<Rightarrow> error" where
  "Cause (errors_Wrap e msg) = Cause e"
| "Cause e = e"

text \<open>The payload of requests and responses is opaque to the transport; only the
  lengths of the two slices matter to it.\<close>

type_synonym RequestUnion = nat
type_synonym ResponseUnion = nat

datatype roachpb_Error = roachpb_Error string

record BatchRequest =
  Replica :: ReplicaDescriptor
  Requests :: "RequestUnion list"

record BatchResponse =
  Error :: "roachpb_Error option"
  Responses :: "ResponseUnion list"

text \<open>\<^verbatim>\<open>BatchCall\<close>: both fields are nullable in Go.\<close>

record BatchCall =
  Reply :: "BatchResponse option"
  Err :: "error option"

datatype ctx = Background | WithTimeout ctx "64 word"

record SendOptions =
  Context :: ctx
  SendNextTimeout :: "64 word"
  Timeout :: "64 word"

definition contextWithTimeout :: "SendOptions \<Rightarrow> ctx" where
  "contextWithTimeout so =
     (if Timeout so \<noteq> 0 then WithTimeout (Context so) (Timeout so) else Context so)"

text \<open>What a \<^verbatim>\<open>Batch\<close> call hands back: Go's pair \<^verbatim>\<open>(reply, err)\<close>.\<close>

type_synonym BatchResult = "BatchResponse option \<times> error option"

text \<open>A local server is its \<^verbatim>\<open>Batch\<close> method.\<close>

type_synonym InternalServer = "ctx \<Rightarrow> BatchRequest \<Rightarrow> BatchResult"

datatype grpc_ClientConn = ClientConn nat

datatype InternalClient = NewInternalClient grpc_ClientConn

text \<open>The network: what \<^verbatim>\<open>client.Batch\<close> returns when the remote call completes.\<close>

type_synonym network = "InternalClient \<Rightarrow> ctx \<Rightarrow> BatchRequest \<Rightarrow> BatchResult"

text \<open>The three capabilities of \<^verbatim>\<open>rpc.Context\<close> that the transport consumes.\<close>

record rpc_Context =
  GRPCDial :: "string \<Rightarrow> error + grpc_ClientConn"
  IsConnHealthy :: "string \<Rightarrow> bool"
  GetLocalInternalServerForAddr :: "string \<Rightarrow> InternalServer option"

text \<open>\<^verbatim>\<open>ReplicaInfo\<close> is declared outside this file; the factory reads its replica
  descriptor and the address string of its node descriptor.\<close>

record ReplicaInfo =
  Descriptor :: ReplicaDescriptor
  NodeDesc_Address_String :: string

text \<open>\<^verbatim>\<open>client.Sender\<close> is its \<^verbatim>\<open>Send\<close> method. The tracer of the sender-backed
  transport only records spans and is left out.\<close>

type_synonym Sender = "BatchRequest \<Rightarrow> BatchResponse option \<times> roachpb_Error option"

record senderTransport =
  sender :: Sender
  args :: BatchRequest
  called :: bool

record batchClient =
  remoteAddr :: string
  conn :: grpc_ClientConn
  client :: InternalClient
  args :: BatchRequest
  healthy :: bool

record grpcTransport =
  opts :: SendOptions
  rpcContext :: rpc_Context
  orderedClients :: "batchClient list"
  allOrderedClients :: "batchClient list"

datatype panic =
    IndexOutOfRange
  | ExhaustedTransport
  | ErrorUnexpectedlySet BatchResponse

text \<open>The body of the \<^verbatim>\<open>go func()\<close> of \<^verbatim>\<open>SendNext\<close> with what it captures.\<close>

record goroutine =
  captured_opts :: SendOptions
  captured_addr :: string
  captured_client :: batchClient

subsection \<open>The health partitioner\<close>

definition byHealth_Len :: "batchClient list \<Rightarrow> nat" where
  "byHealth_Len h = length h"

definition byHealth_Swap :: "batchClient list \<Rightarrow> nat \<Rightarrow> nat \<Rightarrow> batchClient list" where
  "byHealth_Swap h i j = h[i := h ! j, j := h ! i]"

definition byHealth_Less :: "batchClient list \<Rightarrow> nat \<Rightarrow> nat \<Rightarrow> bool" where
  "byHealth_Less h i j = (healthy (h ! i) \<and> \<not> healthy (h ! j))"

text \<open>
  \<^verbatim>\<open>sort.Stable\<close> belongs to Go's standard library. It is taken here as the library's
  insertion sort over the \<^verbatim>\<open>Len\<close>/\<^verbatim>\<open>Less\<close>/\<^verbatim>\<open>Swap\<close> interface,
  \<^verbatim>\<open>for i := 1; i < n; i++ { for j := i; j > 0 && Less(j, j-1); j-- { Swap(j, j-1) } }\<close>,
  which is what the library runs on slices of at most 20 elements; on longer slices
  it merges sorted blocks, and being stable it returns the same slice, since a stable sort
  by a two-valued key has only one result.
\<close>

fun insertionSort_inner :: "batchClient list \<Rightarrow> nat \<Rightarrow> batchClient list" where
  "insertionSort_inner h 0 = h"
| "insertionSort_inner h (Suc j) =
     (if byHealth_Less h (Suc j) j
      then insertionSort_inner (byHealth_Swap h (Suc j) j) j
      else h)"

definition sort_Stable :: "batchClient list \<Rightarrow> batchClient list" where
  "sort_Stable h = foldl insertionSort_inner h [1 ..< byHealth_Len h]"

fun count_healthy :: "batchClient list \<Rightarrow> nat \<Rightarrow> nat" where
  "count_healthy [] nHealthy = nHealthy"
| "count_healthy (c # cs) nHealthy =
     count_healthy cs (if healthy c then nHealthy + 1 else nHealthy)"

text \<open>\<^verbatim>\<open>splitHealthy\<close> sorts its argument in place and returns the count: the model
  returns the slice after the call and the count.\<close>

definition splitHealthy :: "batchClient list \<Rightarrow> batchClient list \<times> nat" where
  "splitHealthy clients =
     (let clients' = sort_Stable clients in (clients', count_healthy clients' 0))"

subsection \<open>The factory\<close>

text \<open>The client that the loop of \<^verbatim>\<open>grpcTransportFactory\<close> appends for a replica
  whose dial returned the connection \<open>cn\<close>.\<close>

definition new_batchClient ::
  "rpc_Context \<Rightarrow> BatchRequest \<Rightarrow> ReplicaInfo \<Rightarrow> grpc_ClientConn \<Rightarrow> batchClient"
where
  "new_batchClient rc a replica cn =
     (let argsCopy = a\<lparr>Replica := Descriptor replica\<rparr>;
          addr = NodeDesc_Address_String replica
      in \<lparr>remoteAddr = addr, conn = cn, client = NewInternalClient cn,
          args = argsCopy, healthy = IsConnHealthy rc addr\<rparr>)"

text \<open>The loop over the replicas, with the slice \<^verbatim>\<open>clients\<close> built so far.\<close>

fun dial_replicas ::
  "rpc_Context \<Rightarrow> BatchRequest \<Rightarrow> ReplicaInfo list \<Rightarrow> batchClient list \<Rightarrow> error + batchClient list"
where
  "dial_replicas rc a [] clients = Inr clients"
| "dial_replicas rc a (replica # replicas) clients =
     (case GRPCDial rc (NodeDesc_Address_String replica) of
        Inl err \<Rightarrow>
          if Cause err = ErrBreakerOpen then dial_replicas rc a replicas clients
          else Inl err
      | Inr cn \<Rightarrow>
          dial_replicas rc a replicas (clients @ [new_batchClient rc a replica cn]))"

definition grpcTransportFactory ::
  "SendOptions \<Rightarrow> rpc_Context \<Rightarrow> ReplicaInfo list \<Rightarrow> BatchRequest \<Rightarrow> error + grpcTransport"
where
  "grpcTransportFactory so rc replicas a =
     (case dial_replicas rc a replicas [] of
        Inl err \<Rightarrow> Inl err
      | Inr clients \<Rightarrow>
          let clients' = fst (splitHealthy clients)
          in Inr \<lparr>opts = so, rpcContext = rc,
                  orderedClients = clients', allOrderedClients = clients'\<rparr>)"

subsection \<open>The dispatch session\<close>

definition IsExhausted :: "grpcTransport \<Rightarrow> bool \<times> grpcTransport" where
  "IsExhausted gt = (length (orderedClients gt) = 0, gt)"

text \<open>The loop \<^verbatim>\<open>for i := range reply.Responses\<close> of the goroutine: it reads
  \<^verbatim>\<open>client.args.Requests[i]\<close>, which panics past the end of the requests; what
  \<^verbatim>\<open>Verify\<close> returns is only logged.\<close>

fun verify_responses :: "ResponseUnion list \<Rightarrow> RequestUnion list \<Rightarrow> nat \<Rightarrow> panic + unit" where
  "verify_responses [] reqs i = Inr ()"
| "verify_responses (r # rs) reqs i =
     (if i < length reqs then verify_responses rs reqs (Suc i) else Inl IndexOutOfRange)"

text \<open>Running a goroutine to its end, on the channel \<open>done\<close> as it is then. A send on
  the channel appends to it: the channel is taken to have room, its capacity being the
  caller's choice. Calls to the logger are left out.\<close>

definition run_goroutine :: "network \<Rightarrow> goroutine \<Rightarrow> BatchCall list \<Rightarrow> panic + BatchCall list" where
  "run_goroutine net g done =
     (let ctx = contextWithTimeout (captured_opts g);
          c = captured_client g;
          (reply, err) = net (client c) ctx (args c)
      in case (case reply of
                 None \<Rightarrow> Inr ()
               | Some r \<Rightarrow> verify_responses (Responses r) (Requests (args c)) 0) of
           Inl p \<Rightarrow> Inl p
         | Inr u \<Rightarrow> Inr (done @ [\<lparr>Reply = reply, Err = err\<rparr>]))"

text \<open>\<^verbatim>\<open>SendNext\<close> returns the address, the session, the channel as it is when the
  call returns, and the goroutines the call has started. The first argument is the
  global \<^verbatim>\<open>enableLocalCalls\<close>.\<close>

definition SendNext ::
  "bool \<Rightarrow> grpcTransport \<Rightarrow> BatchCall list \<Rightarrow>
     panic + (string \<times> grpcTransport \<times> BatchCall list \<times> goroutine list)"
where
  "SendNext enableLocalCalls gt done =
     (case orderedClients gt of
        [] \<Rightarrow> Inl IndexOutOfRange
      | c # rest \<Rightarrow>
          let gt' = gt\<lparr>orderedClients := rest\<rparr>;
              addr = remoteAddr c;
              localServer = GetLocalInternalServerForAddr (rpcContext gt') addr
          in if enableLocalCalls \<and> localServer \<noteq> None
             then let ctx = contextWithTimeout (opts gt');
                      (reply, err) = (the localServer) ctx (args c)
                  in Inr (addr, gt', done @ [\<lparr>Reply = reply, Err = err\<rparr>], [])
             else Inr (addr, gt', done,
                       [\<lparr>captured_opts = opts gt', captured_addr = addr,
                         captured_client = c\<rparr>]))"

text \<open>A \<^verbatim>\<open>for i, c := range cs\<close> that leaves at the first element satisfying \<open>P\<close>.\<close>

fun range_find :: "('a \<Rightarrow> bool) \<Rightarrow> 'a list \<Rightarrow> nat \<Rightarrow> (nat \<times> 'a) option" where
  "range_find P [] i = None"
| "range_find P (c # cs) i = (if P c then Some (i, c) else range_find P cs (Suc i))"

text \<open>In the first loop the source builds a slice \<^verbatim>\<open>oc\<close> from the client found and
  the others, and returns without storing it in \<^verbatim>\<open>gt.orderedClients\<close>: the session
  is returned as it was.\<close>

definition TryNext :: "grpcTransport \<Rightarrow> ReplicaDescriptor \<Rightarrow> error option \<times> grpcTransport" where
  "TryNext gt replica =
     (if fst (IsExhausted gt) then (Some (errors_New ''transport is exhausted''), gt)
      else if ReplicaID replica = 0 then (Some (errors_New ''new leader is <nil>''), gt)
      else case range_find (\<lambda>c. Replica (args c) = replica) (orderedClients gt) 0 of
             Some (i, c) \<Rightarrow> (None, gt)
           | None \<Rightarrow>
               (case range_find (\<lambda>c. Replica (args c) = replica) (allOrderedClients gt) 0 of
                  Some (i, c) \<Rightarrow>
                    (None, gt\<lparr>orderedClients :=
                                [c] @ take (length (orderedClients gt) - 1) (orderedClients gt)\<rparr>)
                | None \<Rightarrow>
                    (Some (errors_Errorf ''couldn't find client for replica %s'' replica), gt)))"

definition Close :: "grpcTransport \<Rightarrow> grpcTransport" where
  "Close gt = gt"

subsection \<open>The sender-backed transport\<close>

definition senderTransport_IsExhausted :: "senderTransport \<Rightarrow> bool \<times> senderTransport" where
  "senderTransport_IsExhausted s = (called s, s)"

definition senderTransport_SendNext ::
  "senderTransport \<Rightarrow> BatchCall list \<Rightarrow> panic + (string \<times> senderTransport \<times> BatchCall list)"
where
  "senderTransport_SendNext s done =
     (if called s then Inl ExhaustedTransport
      else let s' = s\<lparr>called := True\<rparr>;
               (br0, pErr) = sender s' (senderTransport.args s');
               br = (case br0 of None \<Rightarrow> \<lparr>Error = None, Responses = []\<rparr> | Some b \<Rightarrow> b)
           in if Error br \<noteq> None then Inl (ErrorUnexpectedlySet br)
              else Inr ('''', s', done @ [\<lparr>Reply = Some (br\<lparr>Error := pErr\<rparr>), Err = None\<rparr>]))"

subsection \<open>A caller that only sends\<close>

text \<open>\<open>k\<close> calls of \<^verbatim>\<open>SendNext\<close> one after the other, with no \<^verbatim>\<open>TryNext\<close> between
  them; the goroutines started are collected. A call that panics ends the run.\<close>

fun SendNext_times ::
  "bool \<Rightarrow> nat \<Rightarrow> grpcTransport \<Rightarrow> BatchCall list \<Rightarrow> goroutine list \<Rightarrow>
     panic + (grpcTransport \<times> BatchCall list \<times> goroutine list)"
where
  "SendNext_times e 0 gt done gs = Inr (gt, done, gs)"
| "SendNext_times e (Suc k) gt done gs =
     (case SendNext e gt done of
        Inl p \<Rightarrow> Inl p
      | Inr (addr, gt', done', started) \<Rightarrow> SendNext_times e k gt' done' (gs @ started))"

subsection \<open>Concrete candidates, contexts and sessions\<close>

definition replica_of :: "nat \<Rightarrow> ReplicaDescriptor" where
  "replica_of n = \<lparr>NodeID = of_nat n, StoreID = of_nat n, ReplicaID = of_nat n\<rparr>"

definition info_of :: "string \<Rightarrow> nat \<Rightarrow> ReplicaInfo" where
  "info_of addr n = \<lparr>Descriptor = replica_of n, NodeDesc_Address_String = addr\<rparr>"

definition client_of :: "string \<Rightarrow> nat \<Rightarrow> bool \<Rightarrow> batchClient" where
  "client_of addr n h =
     \<lparr>remoteAddr = addr, conn = ClientConn n, client = NewInternalClient (ClientConn n),
      args = \<lparr>Replica = replica_of n, Requests = [7]\<rparr>, healthy = h\<rparr>"

definition cA :: batchClient where "cA = client_of ''A'' 1 True"
definition cB :: batchClient where "cB = client_of ''B'' 2 False"
definition cC :: batchClient where "cC = client_of ''C'' 3 True"

definition ok_reply :: BatchResponse where
  "ok_reply = \<lparr>Error = None, Responses = [8]\<rparr>"

definition local_server :: InternalServer where
  "local_server c a = (Some ok_reply, None)"

definition remote_server :: network where
  "remote_server cl c a = (Some ok_reply, None)"



definition flooding :: network where
  "flooding cl c a = (Some \<lparr>Error = None, Responses = [8, 9]\<rparr>, None)"

definition timing_out :: network where
  "timing_out cl c a = (None, Some (errors_New ''context deadline exceeded''))"

text \<open>A context in which A and C can be dialled and are healthy, the breaker of B is
  open, any other address refuses the connection, and A is served in this process.\<close>

definition rpc_fixture :: rpc_Context where
  "rpc_fixture =
     \<lparr>GRPCDial = (\<lambda>addr.
          if addr = ''A'' then Inr (ClientConn 1)
          else if addr = ''B'' then Inl (errors_Wrap ErrBreakerOpen ''dial'')
          else if addr = ''C'' then Inr (ClientConn 3)
          else Inl (errors_New ''connection refused'')),
      IsConnHealthy = (\<lambda>addr. addr = ''A'' \<or> addr = ''C''),
      GetLocalInternalServerForAddr = (\<lambda>addr. if addr = ''A'' then Some local_server else None)\<rparr>"

definition no_timeout :: SendOptions where
  "no_timeout = \<lparr>Context = Background, SendNextTimeout = 0, Timeout = 0\<rparr>"

definition session :: "batchClient list \<Rightarrow> batchClient list \<Rightarrow> grpcTransport" where
  "session remaining full =
     \<lparr>opts = no_timeout, rpcContext = rpc_fixture,
      orderedClients = remaining, allOrderedClients = full\<rparr>"

definition request :: BatchRequest where
  "request = \<lparr>Replica = replica_of 0, Requests = [7]\<rparr>"

definition bad_reply :: BatchResponse where
  "bad_reply = \<lparr>Error = Some (roachpb_Error ''range not found''), Responses = []\<rparr>"

definition sender_session :: "Sender \<Rightarrow> senderTransport" where
  "sender_session f = \<lparr>sender = f, args = request, called = False\<rparr>"

lemmas fixture_defs =
  session_def no_timeout_def rpc_fixture_def cA_def cB_def cC_def client_of_def replica_of_def
  info_of_def local_server_def remote_server_def flooding_def timing_out_def ok_reply_def request_def bad_reply_def sender_session_def

section \<open>Properties\<close>

subsection \<open>The loops of \<^verbatim>\<open>TryNext\<close>\<close>

lemma range_find_None: "range_find P cs i = None \<longleftrightarrow> (\<forall>c\<in>set cs. \<not> P c)"
  by (induction cs arbitrary: i) auto

lemma range_find_Some: "range_find P cs i = Some (j, c) \<Longrightarrow> c \<in> set cs \<and> P c"
  by (induction cs arbitrary: i) (auto split: if_splits)

lemma range_find_ex: "\<exists>c\<in>set cs. P c \<Longrightarrow> \<exists>j c. range_find P cs i = Some (j, c)"
  by (induction cs arbitrary: i) auto

text \<open>Whatever position a replica with a nonzero id has in the remaining list,
  \<^verbatim>\<open>TryNext\<close> answers \<^verbatim>\<open>nil\<close> and the session is the one it was given.\<close>

lemma TryNext_present:
  assumes "ReplicaID replica \<noteq> 0"
    and "\<exists>c\<in>set (orderedClients gt). Replica (args c) = replica"
  shows "TryNext gt replica = (None, gt)"
proof -
  from assms(2) have ne: "orderedClients gt \<noteq> []" by auto
  from assms(2) obtain j c
    where "range_find (\<lambda>c. Replica (args c) = replica) (orderedClients gt) 0 = Some (j, c)"
    using range_find_ex [of "orderedClients gt" "\<lambda>c. Replica (args c) = replica" 0] by blast
  with ne assms(1) show ?thesis by (simp add: TryNext_def IsExhausted_def)
qed

subsection \<open>Insertion sort by health\<close>

lemma count_healthy_filter: "count_healthy cs n = n + length (filter healthy cs)"
  by (induction cs arbitrary: n) auto

lemma inner_unhealthy:
  assumes "\<not> healthy (h ! j)"
  shows "insertionSort_inner h j = h"
  using assms by (cases j) (simp_all add: byHealth_Less_def)

text \<open>A healthy element behind a block of unhealthy ones is swapped down to the front of
  the block and stops there, since what precedes the block is healthy.\<close>

lemma inner_healthy:
  assumes "healthy x" and "\<forall>u\<in>set U. \<not> healthy u" and "\<forall>c\<in>set H. healthy c"
  shows "insertionSort_inner (H @ U @ x # post) (length H + length U) = H @ x # U @ post"
  using assms(2)
proof (induction U arbitrary: post rule: rev_induct)
  case Nil
  show ?case
  proof (cases H rule: rev_cases)
    case Nil
    then show ?thesis by simp
  next
    case (snoc H' c)
    with assms(3) have "healthy c" by simp
    with snoc show ?thesis
      by (simp add: byHealth_Less_def nth_append)
  qed
next
  case (snoc u U')
  let ?j = "length H + length U'"
  let ?h = "H @ (U' @ [u]) @ x # post"
  have hx: "?h ! Suc ?j = x" by (simp add: nth_append)
  have hu: "?h ! ?j = u" by (simp add: nth_append)
  have sw: "byHealth_Swap ?h (Suc ?j) ?j = H @ U' @ x # (u # post)"
    unfolding byHealth_Swap_def hx hu
    by (simp add: list_update_append)
  have less: "byHealth_Less ?h (Suc ?j) ?j"
    unfolding byHealth_Less_def hx hu using assms(1) snoc.prems by simp
  have "insertionSort_inner ?h (Suc ?j) = insertionSort_inner (H @ U' @ x # (u # post)) ?j"
    using less sw by simp
  also have "\<dots> = H @ x # U' @ (u # post)"
    using snoc.IH [of "u # post"] snoc.prems by simp
  finally show ?case by simp
qed

text \<open>The outer loop: once the indices below \<open>k\<close> are done, the first \<open>k\<close> elements are
  partitioned and the others have not moved.\<close>

lemma insertion_prefix:
  assumes "k \<le> length h"
  shows "foldl insertionSort_inner h [1 ..< k]
           = filter healthy (take k h) @ filter (\<lambda>c. \<not> healthy c) (take k h) @ drop k h"
  using assms
proof (induction k)
  case 0
  then show ?case by simp
next
  case (Suc k)
  let ?H = "filter healthy (take k h)"
  let ?U = "filter (\<lambda>c. \<not> healthy c) (take k h)"
  from Suc.prems have k: "k < length h" by simp
  have tk: "take (Suc k) h = take k h @ [h ! k]" using k by (simp add: take_Suc_conv_app_nth)
  have dk: "drop k h = h ! k # drop (Suc k) h" using k by (simp add: Cons_nth_drop_Suc)
  show ?case
  proof (cases k)
    case 0
    then show ?thesis using tk dk by (cases "healthy (h ! 0)") simp_all
  next
    case (Suc k')
    then have "[1 ..< Suc k] = [1 ..< k] @ [k]" by simp
    then have "foldl insertionSort_inner h [1 ..< Suc k]
                 = insertionSort_inner (foldl insertionSort_inner h [1 ..< k]) k"
      by simp
    also have "foldl insertionSort_inner h [1 ..< k] = ?H @ ?U @ h ! k # drop (Suc k) h"
      using Suc.IH k dk by simp
    finally have step: "foldl insertionSort_inner h [1 ..< Suc k]
                 = insertionSort_inner (?H @ ?U @ h ! k # drop (Suc k) h) k" .
    have len: "length ?H + length ?U = k"
      using k sum_length_filter_compl [of healthy "take k h"] by simp
    show ?thesis
    proof (cases "healthy (h ! k)")
      case True
      have "insertionSort_inner (?H @ ?U @ h ! k # drop (Suc k) h) (length ?H + length ?U)
              = ?H @ h ! k # ?U @ drop (Suc k) h"
        by (rule inner_healthy [OF True]) simp_all
      with step len True tk show ?thesis by simp
    next
      case False
      have "(?H @ ?U @ h ! k # drop (Suc k) h) ! (length ?H + length ?U) = h ! k"
        by (simp add: nth_append)
      then have "(?H @ ?U @ h ! k # drop (Suc k) h) ! k = h ! k" using len by simp
      with False have "insertionSort_inner (?H @ ?U @ h ! k # drop (Suc k) h) k
              = ?H @ ?U @ h ! k # drop (Suc k) h"
        by (simp add: inner_unhealthy)
      with step False tk show ?thesis by simp
    qed
  qed
qed

lemma sort_Stable_partition:
  "sort_Stable h = filter healthy h @ filter (\<lambda>c. \<not> healthy c) h"
  using insertion_prefix [of "length h" h] by (simp add: sort_Stable_def byHealth_Len_def)

subsection \<open>Sending\<close>

lemma SendNext_nonempty:
  assumes "orderedClients gt \<noteq> []"
  shows "\<exists>done' started.
           SendNext e gt ch
             = Inr (remoteAddr (hd (orderedClients gt)),
                    gt\<lparr>orderedClients := tl (orderedClients gt)\<rparr>, done', started)"
  using assms
  by (cases "orderedClients gt") (auto simp add: SendNext_def Let_def split: prod.splits)

lemma SendNext_empty: "orderedClients gt = [] \<Longrightarrow> SendNext e gt ch = Inl IndexOutOfRange"
  by (simp add: SendNext_def)

lemma SendNext_times_drop:
  assumes "k \<le> length (orderedClients gt)"
  shows "\<exists>done' gs'. SendNext_times e k gt ch gs
           = Inr (gt\<lparr>orderedClients := drop k (orderedClients gt)\<rparr>, done', gs')"
  using assms
proof (induction k arbitrary: gt ch gs)
  case 0
  then show ?case by simp
next
  case (Suc k)
  then have ne: "orderedClients gt \<noteq> []" by auto
  from SendNext_nonempty [OF ne, of e ch] obtain done1 started where
    s: "SendNext e gt ch = Inr (remoteAddr (hd (orderedClients gt)),
          gt\<lparr>orderedClients := tl (orderedClients gt)\<rparr>, done1, started)" by blast
  let ?gt1 = "gt\<lparr>orderedClients := tl (orderedClients gt)\<rparr>"
  from Suc.prems have "k \<le> length (orderedClients ?gt1)" by simp
  from Suc.IH [OF this, of done1 "gs @ started"] obtain done' gs' where
    "SendNext_times e k ?gt1 done1 (gs @ started)
       = Inr (?gt1\<lparr>orderedClients := drop k (orderedClients ?gt1)\<rparr>, done', gs')" by blast
  with s show ?case by (simp add: drop_Suc)
qed

lemma SendNext_times_panic:
  assumes "length (orderedClients gt) < k"
  shows "SendNext_times e k gt ch gs = Inl IndexOutOfRange"
  using assms
proof (induction k arbitrary: gt ch gs)
  case 0
  then show ?case by simp
next
  case (Suc k)
  show ?case
  proof (cases "orderedClients gt = []")
    case True
    then show ?thesis by (simp add: SendNext_empty)
  next
    case False
    from SendNext_nonempty [OF False, of e ch] obtain done1 started where
      s: "SendNext e gt ch = Inr (remoteAddr (hd (orderedClients gt)),
            gt\<lparr>orderedClients := tl (orderedClients gt)\<rparr>, done1, started)" by blast
    from Suc.prems False
    have "length (orderedClients (gt\<lparr>orderedClients := tl (orderedClients gt)\<rparr>)) < k"
      by (cases "orderedClients gt") simp_all
    from Suc.IH [OF this] s show ?thesis by simp
  qed
qed

lemma SendNext_times_numeral:
  "SendNext_times e (numeral n) gt ch gs =
     (case SendNext e gt ch of
        Inl p \<Rightarrow> Inl p
      | Inr (addr, gt', done', started) \<Rightarrow>
          SendNext_times e (pred_numeral n) gt' done' (gs @ started))"
  by (simp add: numeral_eq_Suc)

text \<open>The goroutine from start to end: it panics exactly when the reply has more
  responses than the request has requests.\<close>

lemma verify_responses_fits:
  "verify_responses rs reqs i
     = (if rs = [] \<or> i + length rs \<le> length reqs then Inr () else Inl IndexOutOfRange)"
  by (induction rs arbitrary: i) auto

lemma run_goroutine_result:
  "run_goroutine net g ch =
     (let c = captured_client g;
          res = net (client c) (contextWithTimeout (captured_opts g)) (args c)
      in if (\<exists>r. fst res = Some r \<and> length (Requests (args c)) < length (Responses r))
         then Inl IndexOutOfRange
         else Inr (ch @ [\<lparr>Reply = fst res, Err = snd res\<rparr>]))"
  by (auto simp add: run_goroutine_def Let_def verify_responses_fits
      split: prod.splits option.splits sum.splits)

text \<open>One request, two responses: the goroutine panics and the channel gets nothing.\<close>

lemma run_goroutine_flooding:
  "run_goroutine flooding
     \<lparr>captured_opts = no_timeout, captured_addr = ''C'', captured_client = cC\<rparr> []
     = Inl IndexOutOfRange"
  by (simp add: run_goroutine_result Let_def flooding_def cC_def client_of_def)

subsection \<open>Dialling\<close>

lemma dial_replicas_skips:
  assumes "\<forall>r\<in>set replicas. \<forall>err. GRPCDial rc (NodeDesc_Address_String r) = Inl err
             \<longrightarrow> Cause err = ErrBreakerOpen"
  shows "dial_replicas rc a replicas clients
           = Inr (clients @ concat (map (\<lambda>r. case GRPCDial rc (NodeDesc_Address_String r) of
                                          Inl err \<Rightarrow> []
                                        | Inr cn \<Rightarrow> [new_batchClient rc a r cn]) replicas))"
  using assms
  by (induction replicas arbitrary: clients) (auto split: sum.splits)

lemma dial_replicas_aborts:
  assumes "\<forall>r\<in>set pre. \<forall>e. GRPCDial rc (NodeDesc_Address_String r) = Inl e
             \<longrightarrow> Cause e = ErrBreakerOpen"
    and "GRPCDial rc (NodeDesc_Address_String r) = Inl err"
    and "Cause err \<noteq> ErrBreakerOpen"
  shows "dial_replicas rc a (pre @ r # post) clients = Inl err"
  using assms
  by (induction pre arbitrary: clients) (auto split: sum.splits)

text \<open>A session from the factory starts with its remaining list equal to its full
  list.\<close>

lemma grpcTransportFactory_fresh:
  assumes "grpcTransportFactory so rc replicas a = Inr gt"
  shows "orderedClients gt = allOrderedClients gt"
  using assms by (auto simp add: grpcTransportFactory_def Let_def split: sum.splits)

section \<open>The claims\<close>

text \<open>
  C1. A replica with a nonzero id that is among the remaining candidates should be moved
  to the front of the remaining list by \<^verbatim>\<open>TryNext\<close>, the others keeping their order:
  remaining [A, C, B] and \<^verbatim>\<open>TryNext(B)\<close> should give [B, A, C]. The call does succeed,
  but the code drops the slice it has built: on this very input the remaining list is
  still [A, C, B] afterwards.
\<close>

theorem TryNext_present_not_moved:
  "ReplicaID (replica_of 2) \<noteq> 0
   \<and> orderedClients (session [cA, cC, cB] [cA, cC, cB]) = [cA, cC, cB]
   \<and> Replica (args cB) = replica_of 2
   \<and> TryNext (session [cA, cC, cB] [cA, cC, cB]) (replica_of 2)
       = (None, session [cA, cC, cB] [cA, cC, cB])
   \<and> orderedClients (snd (TryNext (session [cA, cC, cB] [cA, cC, cB]) (replica_of 2)))
       \<noteq> [cB, cA, cC]"
  by (simp add: TryNext_def IsExhausted_def fixture_defs)

text \<open>
  C2. On a session whose remaining list is not empty, \<^verbatim>\<open>TryNext\<close> with a nonzero
  replica identity that no remaining candidate has, but a candidate of the full set has,
  succeeds: that candidate is put at the front of the remaining list, the last entry of
  the remaining list is dropped, and the length of the remaining list is what it was. If
  the remaining entries were distinct, the entry dropped is no longer among them.
\<close>

theorem TryNext_reinserts:
  assumes ne: "orderedClients gt \<noteq> []"
    and id: "ReplicaID replica \<noteq> 0"
    and absent: "\<forall>c\<in>set (orderedClients gt). Replica (args c) \<noteq> replica"
    and known: "\<exists>c\<in>set (allOrderedClients gt). Replica (args c) = replica"
  shows "\<exists>c. TryNext gt replica = (None, gt\<lparr>orderedClients := c # butlast (orderedClients gt)\<rparr>)
           \<and> c \<in> set (allOrderedClients gt)
           \<and> Replica (args c) = replica
           \<and> length (c # butlast (orderedClients gt)) = length (orderedClients gt)
           \<and> (distinct (orderedClients gt)
                \<longrightarrow> last (orderedClients gt) \<notin> set (c # butlast (orderedClients gt)))"
proof -
  let ?P = "\<lambda>c. Replica (args c) = replica"
  from absent have r1: "range_find ?P (orderedClients gt) 0 = None"
    by (simp add: range_find_None)
  from known obtain j c where r2: "range_find ?P (allOrderedClients gt) 0 = Some (j, c)"
    using range_find_ex [of "allOrderedClients gt" ?P 0] by blast
  then have c: "c \<in> set (allOrderedClients gt)" "Replica (args c) = replica"
    using range_find_Some [OF r2] by simp_all
  have run: "TryNext gt replica = (None, gt\<lparr>orderedClients := c # butlast (orderedClients gt)\<rparr>)"
    using ne id r1 r2 by (simp add: TryNext_def IsExhausted_def butlast_conv_take)
  have len: "length (c # butlast (orderedClients gt)) = length (orderedClients gt)"
    using ne by simp
  have evict: "last (orderedClients gt) \<notin> set (c # butlast (orderedClients gt))"
    if d: "distinct (orderedClients gt)"
  proof -
    have "last (orderedClients gt) \<in> set (orderedClients gt)" using ne by simp
    with absent c(2) have "last (orderedClients gt) \<noteq> c" by auto
    moreover have "last (orderedClients gt) \<notin> set (butlast (orderedClients gt))"
      using d ne by (metis append_butlast_last_id distinct_butlast not_distinct_conv_prefix)
    ultimately show ?thesis by simp
  qed
  from run c len evict show ?thesis by blast
qed

text \<open>Full set [A, C, B], A already sent, remaining [C, B]: \<^verbatim>\<open>TryNext(A)\<close> leaves
  [A, C].\<close>

theorem TryNext_reinserts_witness:
  "orderedClients (session [cC, cB] [cA, cC, cB]) \<noteq> []
   \<and> ReplicaID (replica_of 1) \<noteq> 0
   \<and> replica_of 1 \<notin> set (map (\<lambda>c. Replica (args c)) (orderedClients (session [cC, cB] [cA, cC, cB])))
   \<and> (\<exists>c\<in>set (allOrderedClients (session [cC, cB] [cA, cC, cB])). Replica (args c) = replica_of 1)
   \<and> distinct (orderedClients (session [cC, cB] [cA, cC, cB]))
   \<and> TryNext (session [cC, cB] [cA, cC, cB]) (replica_of 1)
       = (None, session [cA, cC] [cA, cC, cB])
   \<and> cB \<notin> set (orderedClients (session [cA, cC] [cA, cC, cB]))"
proof -
  let ?s = "session [cC, cB] [cA, cC, cB]"
  have h1: "orderedClients ?s \<noteq> []" by (simp add: session_def)
  have h2: "ReplicaID (replica_of 1) \<noteq> 0" by (simp add: replica_of_def)
  have h3: "\<forall>c\<in>set (orderedClients ?s). Replica (args c) \<noteq> replica_of 1"
    by (simp add: fixture_defs)
  have h4: "\<exists>c\<in>set (allOrderedClients ?s). Replica (args c) = replica_of 1"
    by (simp add: fixture_defs)
  have h5: "distinct (orderedClients ?s)" by (simp add: fixture_defs)
  have run: "TryNext ?s (replica_of 1) = (None, session [cA, cC] [cA, cC, cB])"
    by (simp add: TryNext_def IsExhausted_def fixture_defs)
  from TryNext_reinserts [OF h1 h2 h3 h4] obtain c where
    "TryNext ?s (replica_of 1) = (None, ?s\<lparr>orderedClients := c # butlast (orderedClients ?s)\<rparr>)"
    and "distinct (orderedClients ?s)
           \<longrightarrow> last (orderedClients ?s) \<notin> set (c # butlast (orderedClients ?s))"
    by blast
  with run h5 have "cB \<notin> set (orderedClients (session [cA, cC] [cA, cC, cB]))"
    by (simp add: session_def)
  with h1 h2 h3 h4 h5 run show ?thesis by (simp add: fixture_defs)
qed

text \<open>
  C3. \<^verbatim>\<open>splitHealthy\<close> turns any candidate list into a stable partition: the healthy
  candidates in their original order, then the unhealthy ones in their original order. The
  count it returns, \<open>h\<close>, is the number of healthy candidates, so the first \<open>h\<close> entries of
  the result are exactly the healthy candidates and the others the unhealthy ones. The
  empty list gives the empty list and the count zero.
\<close>

theorem splitHealthy_stable_partition:
  "splitHealthy clients
     = (filter healthy clients @ filter (\<lambda>c. \<not> healthy c) clients,
        length (filter healthy clients))
   \<and> take (snd (splitHealthy clients)) (fst (splitHealthy clients)) = filter healthy clients
   \<and> drop (snd (splitHealthy clients)) (fst (splitHealthy clients))
       = filter (\<lambda>c. \<not> healthy c) clients
   \<and> splitHealthy [] = ([], 0)"
  by (simp add: splitHealthy_def sort_Stable_partition count_healthy_filter)

text \<open>[A (healthy), B (unhealthy), C (healthy)] becomes [A, C, B], with two healthy.\<close>

theorem splitHealthy_stable_partition_witness:
  "splitHealthy [cA, cB, cC] = ([cA, cC, cB], 2)"
  using splitHealthy_stable_partition [of "[cA, cB, cC]"]
  by (simp add: cA_def cB_def cC_def client_of_def)

text \<open>
  C4. On a session that starts with its remaining list equal to its full candidate list
  and on which only \<^verbatim>\<open>SendNext\<close> is called, \<open>k\<close> calls complete exactly when \<open>k\<close> is at
  most the size of the candidate set (one more call panics); after \<open>k\<close> completed calls
  \<^verbatim>\<open>IsExhausted\<close> answers true if and only if \<open>k\<close> is the size of the candidate set, and it
  returns the session as it received it.
\<close>

theorem IsExhausted_after_sends:
  assumes fresh: "orderedClients gt0 = allOrderedClients gt0"
  shows "((\<exists>r. SendNext_times e k gt0 ch gs = Inr r) \<longleftrightarrow> k \<le> length (allOrderedClients gt0))
       \<and> (\<forall>gt done' gs'. SendNext_times e k gt0 ch gs = Inr (gt, done', gs')
            \<longrightarrow> (fst (IsExhausted gt) \<longleftrightarrow> k = length (allOrderedClients gt0))
                \<and> snd (IsExhausted gt) = gt)"
proof (cases "k \<le> length (orderedClients gt0)")
  case True
  from SendNext_times_drop [OF True, of e ch gs] obtain done1 gs1 where
    r: "SendNext_times e k gt0 ch gs
          = Inr (gt0\<lparr>orderedClients := drop k (orderedClients gt0)\<rparr>, done1, gs1)" by blast
  with True fresh show ?thesis by (auto simp add: IsExhausted_def)
next
  case False
  then have "SendNext_times e k gt0 ch gs = Inl IndexOutOfRange"
    by (simp add: SendNext_times_panic)
  with False fresh show ?thesis by simp
qed

text \<open>Three candidates: three sends exhaust the session, two do not, a fourth panics.\<close>

theorem IsExhausted_after_sends_witness:
  "orderedClients (session [cA, cC, cB] [cA, cC, cB])
     = allOrderedClients (session [cA, cC, cB] [cA, cC, cB])
   \<and> (\<exists>done' gs'. SendNext_times True 3 (session [cA, cC, cB] [cA, cC, cB]) [] []
         = Inr (session [] [cA, cC, cB], done', gs'))
   \<and> fst (IsExhausted (session [] [cA, cC, cB]))
   \<and> (\<exists>done' gs'. SendNext_times True 2 (session [cA, cC, cB] [cA, cC, cB]) [] []
         = Inr (session [cB] [cA, cC, cB], done', gs'))
   \<and> \<not> fst (IsExhausted (session [cB] [cA, cC, cB]))
   \<and> SendNext_times True 4 (session [cA, cC, cB] [cA, cC, cB]) [] [] = Inl IndexOutOfRange"
proof -
  let ?s = "session [cA, cC, cB] [cA, cC, cB]"
  have h: "orderedClients ?s = allOrderedClients ?s" by (simp add: session_def)
  have n3: "SendNext_times True 3 ?s [] [] = Inr (session [] [cA, cC, cB],
      [\<lparr>Reply = Some ok_reply, Err = None\<rparr>],
      [\<lparr>captured_opts = no_timeout, captured_addr = ''C'', captured_client = cC\<rparr>,
       \<lparr>captured_opts = no_timeout, captured_addr = ''B'', captured_client = cB\<rparr>])"
    by (simp add: SendNext_times_numeral SendNext_def Let_def session_def rpc_fixture_def
        cA_def cB_def cC_def client_of_def local_server_def)
  have n2: "SendNext_times True 2 ?s [] [] = Inr (session [cB] [cA, cC, cB],
      [\<lparr>Reply = Some ok_reply, Err = None\<rparr>],
      [\<lparr>captured_opts = no_timeout, captured_addr = ''C'', captured_client = cC\<rparr>])"
    by (simp add: SendNext_times_numeral SendNext_def Let_def session_def rpc_fixture_def
        cA_def cB_def cC_def client_of_def local_server_def)
  have n4: "SendNext_times True 4 ?s [] [] = Inl IndexOutOfRange"
    using IsExhausted_after_sends [OF h, of True 4 "[]" "[]"]
    by (cases "SendNext_times True 4 ?s [] []") (simp_all add: session_def SendNext_times_panic)
  show ?thesis
    using h n3 n2 n4
      IsExhausted_after_sends [OF h, of True 3 "[]" "[]"]
      IsExhausted_after_sends [OF h, of True 2 "[]" "[]"]
    by (simp add: session_def)
qed

text \<open>
  C5. On a session that is not exhausted, \<^verbatim>\<open>SendNext\<close> returns the address of the head
  of the remaining list and leaves the tail of the remaining list as the remaining list:
  one entry fewer, the others in their order. This holds whatever \<^verbatim>\<open>enableLocalCalls\<close>
  and the context say, that is on the local path and on the network path.
\<close>

theorem SendNext_pops_head:
  assumes "orderedClients gt \<noteq> []"
  shows "\<exists>done' started.
           SendNext e gt ch
             = Inr (remoteAddr (hd (orderedClients gt)),
                    gt\<lparr>orderedClients := tl (orderedClients gt)\<rparr>, done', started)
           \<and> orderedClients gt
               = hd (orderedClients gt) # orderedClients (gt\<lparr>orderedClients := tl (orderedClients gt)\<rparr>)
           \<and> Suc (length (orderedClients (gt\<lparr>orderedClients := tl (orderedClients gt)\<rparr>)))
               = length (orderedClients gt)"
  using assms SendNext_nonempty [OF assms, of e ch] by auto

text \<open>A is served in this process and C is not: the first send takes the local path,
  the second the network path, and with local calls disabled A takes the network path.\<close>

theorem SendNext_pops_head_witness:
  "orderedClients (session [cA, cC, cB] [cA, cC, cB]) \<noteq> []
   \<and> SendNext True (session [cA, cC, cB] [cA, cC, cB]) []
       = Inr (''A'', session [cC, cB] [cA, cC, cB], [\<lparr>Reply = Some ok_reply, Err = None\<rparr>], [])
   \<and> orderedClients (session [cC, cB] [cA, cC, cB]) \<noteq> []
   \<and> SendNext True (session [cC, cB] [cA, cC, cB]) []
       = Inr (''C'', session [cB] [cA, cC, cB], [],
              [\<lparr>captured_opts = no_timeout, captured_addr = ''C'', captured_client = cC\<rparr>])
   \<and> SendNext False (session [cA, cC, cB] [cA, cC, cB]) []
       = Inr (''A'', session [cC, cB] [cA, cC, cB], [],
              [\<lparr>captured_opts = no_timeout, captured_addr = ''A'', captured_client = cA\<rparr>])"
proof -
  have h1: "orderedClients (session [cA, cC, cB] [cA, cC, cB]) \<noteq> []" by (simp add: session_def)
  have h2: "orderedClients (session [cC, cB] [cA, cC, cB]) \<noteq> []" by (simp add: session_def)
  show ?thesis
    using h1 h2 SendNext_pops_head [OF h1, of True "[]"] SendNext_pops_head [OF h2, of True "[]"]
    by (simp add: SendNext_def Let_def session_def rpc_fixture_def
        cA_def cB_def cC_def client_of_def local_server_def)
qed




text \<open>
  C7. \<^verbatim>\<open>TryNext\<close> with a zero replica id, or with an identity that no candidate of the
  remaining list or of the full set has, returns an error and the session it was given,
  unchanged. On a session that is not exhausted the error is ``new leader is <nil>'' for
  the zero id and ``couldn't find client for replica'' for the unknown identity, and the
  two differ. On an exhausted session the error is ``transport is exhausted'' for both.
\<close>

theorem TryNext_rejects:
  assumes "ReplicaID replica = 0
           \<or> ((\<forall>c\<in>set (orderedClients gt). Replica (args c) \<noteq> replica)
              \<and> (\<forall>c\<in>set (allOrderedClients gt). Replica (args c) \<noteq> replica))"
  shows "TryNext gt replica =
           (Some (if orderedClients gt = [] then errors_New ''transport is exhausted''
                  else if ReplicaID replica = 0 then errors_New ''new leader is <nil>''
                  else errors_Errorf ''couldn't find client for replica %s'' replica), gt)
         \<and> errors_New ''new leader is <nil>''
             \<noteq> errors_Errorf ''couldn't find client for replica %s'' replica"
proof (cases "orderedClients gt = [] \<or> ReplicaID replica = 0")
  case True
  then show ?thesis by (auto simp add: TryNext_def IsExhausted_def)
next
  case False
  with assms have "range_find (\<lambda>c. Replica (args c) = replica) (orderedClients gt) 0 = None"
    and "range_find (\<lambda>c. Replica (args c) = replica) (allOrderedClients gt) 0 = None"
    by (simp_all add: range_find_None)
  with False show ?thesis by (simp add: TryNext_def IsExhausted_def)
qed

theorem TryNext_rejects_witness:
  "ReplicaID (replica_of 0) = 0
   \<and> TryNext (session [cC, cB] [cA, cC, cB]) (replica_of 0)
       = (Some (errors_New ''new leader is <nil>''), session [cC, cB] [cA, cC, cB])
   \<and> ReplicaID (replica_of 9) \<noteq> 0
   \<and> replica_of 9 \<notin> set (map (\<lambda>c. Replica (args c)) (orderedClients (session [cC, cB] [cA, cC, cB])))
   \<and> replica_of 9 \<notin> set (map (\<lambda>c. Replica (args c)) (allOrderedClients (session [cC, cB] [cA, cC, cB])))
   \<and> TryNext (session [cC, cB] [cA, cC, cB]) (replica_of 9)
       = (Some (errors_Errorf ''couldn't find client for replica %s'' (replica_of 9)),
          session [cC, cB] [cA, cC, cB])"
proof -
  let ?s = "session [cC, cB] [cA, cC, cB]"
  have z: "ReplicaID (replica_of 0) = 0" by (simp add: replica_of_def)
  have u: "(\<forall>c\<in>set (orderedClients ?s). Replica (args c) \<noteq> replica_of 9)
     \<and> (\<forall>c\<in>set (allOrderedClients ?s). Replica (args c) \<noteq> replica_of 9)"
    by (simp add: fixture_defs)
  have n: "ReplicaID (replica_of 9) \<noteq> 0" by (simp add: replica_of_def)
  have s: "orderedClients ?s \<noteq> []" by (simp add: session_def)
  show ?thesis
    using TryNext_rejects [of "replica_of 0" ?s, OF disjI1 [OF z]]
      TryNext_rejects [of "replica_of 9" ?s, OF disjI2 [OF u]]
      z u n s
    by (simp add: fixture_defs)
qed

text \<open>On the exhausted session with full set [A, C, B], the zero id and the unknown
  replica 9 get one and the same error.\<close>

theorem TryNext_exhausted_same_error:
  "orderedClients (session [] [cA, cC, cB]) = []
   \<and> ReplicaID (replica_of 0) = 0
   \<and> ReplicaID (replica_of 9) \<noteq> 0
   \<and> replica_of 9 \<notin> set (map (\<lambda>c. Replica (args c)) (allOrderedClients (session [] [cA, cC, cB])))
   \<and> fst (TryNext (session [] [cA, cC, cB]) (replica_of 0))
       = fst (TryNext (session [] [cA, cC, cB]) (replica_of 9))"
  by (simp add: TryNext_def IsExhausted_def fixture_defs)

text \<open>
  C8. If every dial error among the replicas has \<^verbatim>\<open>ErrBreakerOpen\<close> as its cause, the
  factory returns a session; its candidates are those of the replicas whose dial succeeded,
  in the order of the replicas and then partitioned by health (none, if no dial
  succeeded). If a replica's dial fails with an error of any other cause, and no replica
  before it does, the factory returns that error and no session.
\<close>

theorem grpcTransportFactory_dial_errors:
  "((\<forall>r\<in>set replicas. \<forall>err. GRPCDial rc (NodeDesc_Address_String r) = Inl err
        \<longrightarrow> Cause err = ErrBreakerOpen)
     \<longrightarrow> (\<exists>clients.
           grpcTransportFactory so rc replicas a
             = Inr \<lparr>opts = so, rpcContext = rc,
                    orderedClients = clients, allOrderedClients = clients\<rparr>
           \<and> clients
               = fst (splitHealthy
                   (concat (map (\<lambda>r. case GRPCDial rc (NodeDesc_Address_String r) of
                                        Inl err \<Rightarrow> []
                                      | Inr cn \<Rightarrow> [new_batchClient rc a r cn]) replicas)))))
   \<and> ((\<forall>r\<in>set pre. \<forall>e. GRPCDial rc (NodeDesc_Address_String r) = Inl e
          \<longrightarrow> Cause e = ErrBreakerOpen)
       \<and> GRPCDial rc (NodeDesc_Address_String r) = Inl err
       \<and> Cause err \<noteq> ErrBreakerOpen
     \<longrightarrow> grpcTransportFactory so rc (pre @ r # post) a = Inl err)"
  by (simp add: grpcTransportFactory_def dial_replicas_skips dial_replicas_aborts Let_def)

text \<open>The breaker of B is open: [A, B, C] gives the session of A and C, [B] alone an empty
  session. D refuses the connection: the factory returns that error.\<close>

theorem grpcTransportFactory_dial_errors_witness:
  "grpcTransportFactory no_timeout rpc_fixture [info_of ''A'' 1, info_of ''B'' 2, info_of ''C'' 3]
       request
     = Inr \<lparr>opts = no_timeout, rpcContext = rpc_fixture,
            orderedClients = [cA\<lparr>args := request\<lparr>Replica := replica_of 1\<rparr>\<rparr>,
                              cC\<lparr>args := request\<lparr>Replica := replica_of 3\<rparr>\<rparr>],
            allOrderedClients = [cA\<lparr>args := request\<lparr>Replica := replica_of 1\<rparr>\<rparr>,
                                 cC\<lparr>args := request\<lparr>Replica := replica_of 3\<rparr>\<rparr>]\<rparr>
   \<and> grpcTransportFactory no_timeout rpc_fixture [info_of ''B'' 2] request
     = Inr \<lparr>opts = no_timeout, rpcContext = rpc_fixture,
            orderedClients = [], allOrderedClients = []\<rparr>
   \<and> GRPCDial rpc_fixture (NodeDesc_Address_String (info_of ''B'' 2))
       = Inl (errors_Wrap ErrBreakerOpen ''dial'')
   \<and> Cause (errors_Wrap ErrBreakerOpen ''dial'') = ErrBreakerOpen
   \<and> GRPCDial rpc_fixture (NodeDesc_Address_String (info_of ''D'' 4))
       = Inl (errors_New ''connection refused'')
   \<and> Cause (errors_New ''connection refused'') \<noteq> ErrBreakerOpen
   \<and> grpcTransportFactory no_timeout rpc_fixture
        ([info_of ''A'' 1, info_of ''B'' 2] @ info_of ''D'' 4 # [info_of ''C'' 3]) request
     = Inl (errors_New ''connection refused'')"
proof -
  have skip: "\<forall>r\<in>set [info_of ''A'' 1, info_of ''B'' 2, info_of ''C'' 3].
      \<forall>err. GRPCDial rpc_fixture (NodeDesc_Address_String r) = Inl err
        \<longrightarrow> Cause err = ErrBreakerOpen"
    by (auto simp add: rpc_fixture_def info_of_def)
  have skip1: "\<forall>r\<in>set [info_of ''B'' 2].
      \<forall>err. GRPCDial rpc_fixture (NodeDesc_Address_String r) = Inl err
        \<longrightarrow> Cause err = ErrBreakerOpen"
    by (auto simp add: rpc_fixture_def info_of_def)
  have skip2: "\<forall>r\<in>set [info_of ''A'' 1, info_of ''B'' 2].
      \<forall>err. GRPCDial rpc_fixture (NodeDesc_Address_String r) = Inl err
        \<longrightarrow> Cause err = ErrBreakerOpen"
    by (auto simp add: rpc_fixture_def info_of_def)
  have hard: "GRPCDial rpc_fixture (NodeDesc_Address_String (info_of ''D'' 4))
       = Inl (errors_New ''connection refused'')"
    by (simp add: rpc_fixture_def info_of_def)
  have cause: "Cause (errors_New ''connection refused'') \<noteq> ErrBreakerOpen" by simp
  have dialB: "GRPCDial rpc_fixture (NodeDesc_Address_String (info_of ''B'' 2))
       = Inl (errors_Wrap ErrBreakerOpen ''dial'')"
    by (simp add: rpc_fixture_def info_of_def)
  have dialled: "concat (map (\<lambda>r. case GRPCDial rpc_fixture (NodeDesc_Address_String r) of
                                    Inl err \<Rightarrow> []
                                  | Inr cn \<Rightarrow> [new_batchClient rpc_fixture request r cn])
                          [info_of ''A'' 1, info_of ''B'' 2, info_of ''C'' 3])
       = [cA\<lparr>args := request\<lparr>Replica := replica_of 1\<rparr>\<rparr>,
          cC\<lparr>args := request\<lparr>Replica := replica_of 3\<rparr>\<rparr>]"
    by (simp add: rpc_fixture_def info_of_def new_batchClient_def cA_def cC_def client_of_def
        del: One_nat_def)
  have split: "fst (splitHealthy [cA\<lparr>args := request\<lparr>Replica := replica_of 1\<rparr>\<rparr>,
                                  cC\<lparr>args := request\<lparr>Replica := replica_of 3\<rparr>\<rparr>])
       = [cA\<lparr>args := request\<lparr>Replica := replica_of 1\<rparr>\<rparr>,
          cC\<lparr>args := request\<lparr>Replica := replica_of 3\<rparr>\<rparr>]"
    by (simp add: splitHealthy_def sort_Stable_partition cA_def cC_def client_of_def)
  have none: "fst (splitHealthy []) = []"
    by (simp add: splitHealthy_def sort_Stable_partition)
  note t = grpcTransportFactory_dial_errors
  from t [where replicas = "[info_of ''A'' 1, info_of ''B'' 2, info_of ''C'' 3]"
            and rc = rpc_fixture and so = no_timeout and a = request] skip
  have a: "grpcTransportFactory no_timeout rpc_fixture
             [info_of ''A'' 1, info_of ''B'' 2, info_of ''C'' 3] request
     = Inr \<lparr>opts = no_timeout, rpcContext = rpc_fixture,
            orderedClients = [cA\<lparr>args := request\<lparr>Replica := replica_of 1\<rparr>\<rparr>,
                              cC\<lparr>args := request\<lparr>Replica := replica_of 3\<rparr>\<rparr>],
            allOrderedClients = [cA\<lparr>args := request\<lparr>Replica := replica_of 1\<rparr>\<rparr>,
                                 cC\<lparr>args := request\<lparr>Replica := replica_of 3\<rparr>\<rparr>]\<rparr>"
    unfolding dialled split by blast
  from t [where replicas = "[info_of ''B'' 2]" and rc = rpc_fixture
            and so = no_timeout and a = request] skip1
  have b: "grpcTransportFactory no_timeout rpc_fixture [info_of ''B'' 2] request
     = Inr \<lparr>opts = no_timeout, rpcContext = rpc_fixture, orderedClients = [], allOrderedClients = []\<rparr>"
    by (simp add: dialB none del: One_nat_def)
  from t [where pre = "[info_of ''A'' 1, info_of ''B'' 2]" and r = "info_of ''D'' 4"
            and err = "errors_New ''connection refused''" and post = "[info_of ''C'' 3]"
            and rc = rpc_fixture and so = no_timeout and a = request]
    skip2 hard cause
  have c: "grpcTransportFactory no_timeout rpc_fixture
        ([info_of ''A'' 1, info_of ''B'' 2] @ info_of ''D'' 4 # [info_of ''C'' 3]) request
     = Inl (errors_New ''connection refused'')"
    by blast
  from a b c dialB hard show ?thesis by (simp del: One_nat_def)
qed

text \<open>
  C9. On a sender-backed transport that has not been called: if the sender returns, with
  no error of its own, a reply whose embedded error is already set, \<^verbatim>\<open>SendNext\<close> panics
  with \<^verbatim>\<open>ErrorUnexpectedlySet\<close> and delivers nothing; if the sender never returns a reply
  with its embedded error set, \<^verbatim>\<open>SendNext\<close> returns and delivers the reply with the
  sender's error stored in it. The panic happens exactly when the reply returned has its
  embedded error set.
\<close>

theorem senderTransport_SendNext_sanity:
  assumes "\<not> called s"
  shows "(sender s (senderTransport.args s) = (Some br, None) \<and> Error br \<noteq> None
            \<longrightarrow> senderTransport_SendNext s ch = Inl (ErrorUnexpectedlySet br))
       \<and> ((\<forall>b. fst (sender s (senderTransport.args s)) = Some b \<longrightarrow> Error b = None)
            \<longrightarrow> senderTransport_SendNext s ch
                  = Inr ('''', s\<lparr>called := True\<rparr>,
                         ch @ [\<lparr>Reply = Some ((case fst (sender s (senderTransport.args s)) of
                                                None \<Rightarrow> \<lparr>Error = None, Responses = []\<rparr>
                                              | Some b \<Rightarrow> b)
                                             \<lparr>Error := snd (sender s (senderTransport.args s))\<rparr>),
                                Err = None\<rparr>]))
       \<and> ((\<exists>b. senderTransport_SendNext s ch = Inl (ErrorUnexpectedlySet b))
            \<longleftrightarrow> (\<exists>b. fst (sender s (senderTransport.args s)) = Some b \<and> Error b \<noteq> None))"
  using assms
  by (cases "sender s (senderTransport.args s)")
     (auto simp add: senderTransport_SendNext_def Let_def split: option.splits)

theorem senderTransport_SendNext_sanity_witness:
  "\<not> called (sender_session (\<lambda>a. (Some bad_reply, None)))
   \<and> Error bad_reply \<noteq> None
   \<and> senderTransport_SendNext (sender_session (\<lambda>a. (Some bad_reply, None))) []
       = Inl (ErrorUnexpectedlySet bad_reply)
   \<and> \<not> called (sender_session (\<lambda>a. (Some ok_reply, None)))
   \<and> Error ok_reply = None
   \<and> senderTransport_SendNext (sender_session (\<lambda>a. (Some ok_reply, None))) []
       = Inr ('''', (sender_session (\<lambda>a. (Some ok_reply, None)))\<lparr>called := True\<rparr>,
              [\<lparr>Reply = Some ok_reply, Err = None\<rparr>])"
proof -
  let ?bad = "sender_session (\<lambda>a. (Some bad_reply, None))"
  let ?good = "sender_session (\<lambda>a. (Some ok_reply, None))"
  have b: "\<not> called ?bad" by (simp add: sender_session_def)
  have g: "\<not> called ?good" by (simp add: sender_session_def)
  have e: "Error bad_reply \<noteq> None" by (simp add: bad_reply_def)
  have o: "Error ok_reply = None" by (simp add: ok_reply_def)
  show ?thesis
    using b g e o
      senderTransport_SendNext_sanity [OF b, of bad_reply "[]"]
      senderTransport_SendNext_sanity [OF g, of ok_reply "[]"]
    by (simp add: sender_session_def ok_reply_def)
qed

text \<open>
  C10. On an exhausted session \<^verbatim>\<open>TryNext\<close> returns the error ``transport is exhausted''
  and the session unchanged, whatever replica identity it is given: a replica of the full
  set with a nonzero id is not put back.
\<close>

theorem TryNext_exhausted:
  assumes "orderedClients gt = []"
  shows "TryNext gt replica = (Some (errors_New ''transport is exhausted''), gt)"
  using assms by (simp add: TryNext_def IsExhausted_def)

theorem TryNext_exhausted_witness:
  "orderedClients (session [] [cA, cC, cB]) = []
   \<and> ReplicaID (replica_of 1) \<noteq> 0
   \<and> cA \<in> set (allOrderedClients (session [] [cA, cC, cB]))
   \<and> Replica (args cA) = replica_of 1
   \<and> TryNext (session [] [cA, cC, cB]) (replica_of 1)
       = (Some (errors_New ''transport is exhausted''), session [] [cA, cC, cB])"
proof -
  have h: "orderedClients (session [] [cA, cC, cB]) = []" by (simp add: session_def)
  show ?thesis
    using TryNext_exhausted [OF h, of "replica_of 1"]
    by (simp add: fixture_defs)
qed

end
